theory Spec2Isabelle
  imports Main "HOL-Library.Sublist"
begin

section \<open>Model registry (utils/constants.ts)\<close>

text \<open>
  JavaScript strings are represented by \<^typ>\<open>string\<close>, read as the UTF-8 bytes of the
  text. The registry entries are the \<open>ModelInfo\<close> objects of the source; the exported
  \<open>MODEL_LIST\<close> is a mutable binding that starts as a copy of \<open>staticModels\<close> and is later
  replaced by \<open>[...ollamaModels, ...openAiLikeModels, ...staticModels]\<close>, so the functions
  that read it take its current value as an argument.
\<close>

record ModelInfo =
  name :: string
  label :: string
  provider :: string

definition DEFAULT_MODEL :: string where
  "DEFAULT_MODEL = ''claude-3-5-sonnet-20240620''"

definition DEFAULT_PROVIDER :: string where
  "DEFAULT_PROVIDER = ''Anthropic''"

definition staticModels :: "ModelInfo list" where
  "staticModels =
   [\<lparr>name = ''claude-3-5-sonnet-20240620'', label = ''Claude 3.5 Sonnet'', provider = ''Anthropic''\<rparr>,
    \<lparr>name = ''gpt-4o'', label = ''GPT-4o'', provider = ''OpenAI''\<rparr>,
    \<lparr>name = ''anthropic/claude-3.5-sonnet'', label = ''Anthropic: Claude 3.5 Sonnet (OpenRouter)'', provider = ''OpenRouter''\<rparr>,
    \<lparr>name = ''anthropic/claude-3-haiku'', label = ''Anthropic: Claude 3 Haiku (OpenRouter)'', provider = ''OpenRouter''\<rparr>,
    \<lparr>name = ''deepseek/deepseek-coder'', label = ''Deepseek-Coder V2 236B (OpenRouter)'', provider = ''OpenRouter''\<rparr>,
    \<lparr>name = ''google/gemini-flash-1.5'', label = ''Google Gemini Flash 1.5 (OpenRouter)'', provider = ''OpenRouter''\<rparr>,
    \<lparr>name = ''google/gemini-pro-1.5'', label = ''Google Gemini Pro 1.5 (OpenRouter)'', provider = ''OpenRouter''\<rparr>,
    \<lparr>name = ''x-ai/grok-beta'', label = ''xAI Grok Beta (OpenRouter)'', provider = ''OpenRouter''\<rparr>,
    \<lparr>name = ''mistralai/mistral-nemo'', label = ''OpenRouter Mistral Nemo (OpenRouter)'', provider = ''OpenRouter''\<rparr>,
    \<lparr>name = ''qwen/qwen-110b-chat'', label = ''OpenRouter Qwen 110b Chat (OpenRouter)'', provider = ''OpenRouter''\<rparr>,
    \<lparr>name = ''cohere/command'', label = ''Cohere Command (OpenRouter)'', provider = ''OpenRouter''\<rparr>,
    \<lparr>name = ''gemini-1.5-flash-latest'', label = ''Gemini 1.5 Flash'', provider = ''Google''\<rparr>,
    \<lparr>name = ''gemini-1.5-pro-latest'', label = ''Gemini 1.5 Pro'', provider = ''Google''\<rparr>,
    \<lparr>name = ''llama-3.1-70b-versatile'', label = ''Llama 3.1 70b (Groq)'', provider = ''Groq''\<rparr>,
    \<lparr>name = ''llama-3.1-8b-instant'', label = ''Llama 3.1 8b (Groq)'', provider = ''Groq''\<rparr>,
    \<lparr>name = ''llama-3.2-11b-vision-preview'', label = ''Llama 3.2 11b (Groq)'', provider = ''Groq''\<rparr>,
    \<lparr>name = ''llama-3.2-3b-preview'', label = ''Llama 3.2 3b (Groq)'', provider = ''Groq''\<rparr>,
    \<lparr>name = ''llama-3.2-1b-preview'', label = ''Llama 3.2 1b (Groq)'', provider = ''Groq''\<rparr>,
    \<lparr>name = ''claude-3-opus-20240229'', label = ''Claude 3 Opus'', provider = ''Anthropic''\<rparr>,
    \<lparr>name = ''claude-3-sonnet-20240229'', label = ''Claude 3 Sonnet'', provider = ''Anthropic''\<rparr>,
    \<lparr>name = ''claude-3-haiku-20240307'', label = ''Claude 3 Haiku'', provider = ''Anthropic''\<rparr>,
    \<lparr>name = ''gpt-4o-mini'', label = ''GPT-4o Mini'', provider = ''OpenAI''\<rparr>,
    \<lparr>name = ''gpt-4-turbo'', label = ''GPT-4 Turbo'', provider = ''OpenAI''\<rparr>,
    \<lparr>name = ''gpt-4'', label = ''GPT-4'', provider = ''OpenAI''\<rparr>,
    \<lparr>name = ''gpt-3.5-turbo'', label = ''GPT-3.5 Turbo'', provider = ''OpenAI''\<rparr>,
    \<lparr>name = ''grok-beta'', label = ''xAI Grok Beta'', provider = ''xAI''\<rparr>,
    \<lparr>name = ''deepseek-coder'', label = ''Deepseek-Coder'', provider = ''Deepseek''\<rparr>,
    \<lparr>name = ''deepseek-chat'', label = ''Deepseek-Chat'', provider = ''Deepseek''\<rparr>,
    \<lparr>name = ''open-mistral-7b'', label = ''Mistral 7B'', provider = ''Mistral''\<rparr>,
    \<lparr>name = ''open-mixtral-8x7b'', label = ''Mistral 8x7B'', provider = ''Mistral''\<rparr>,
    \<lparr>name = ''open-mixtral-8x22b'', label = ''Mistral 8x22B'', provider = ''Mistral''\<rparr>,
    \<lparr>name = ''open-codestral-mamba'', label = ''Codestral Mamba'', provider = ''Mistral''\<rparr>,
    \<lparr>name = ''open-mistral-nemo'', label = ''Mistral Nemo'', provider = ''Mistral''\<rparr>,
    \<lparr>name = ''ministral-8b-latest'', label = ''Mistral 8B'', provider = ''Mistral''\<rparr>,
    \<lparr>name = ''mistral-small-latest'', label = ''Mistral Small'', provider = ''Mistral''\<rparr>,
    \<lparr>name = ''codestral-latest'', label = ''Codestral'', provider = ''Mistral''\<rparr>,
    \<lparr>name = ''mistral-large-latest'', label = ''Mistral Large Latest'', provider = ''Mistral''\<rparr>]"

text \<open>
  \<open>initializeModelList\<close>: the discovered models are put in front of the static list. The
  initial value of \<open>MODEL_LIST\<close> is \<open>MODEL_LIST []\<close>.
\<close>

definition MODEL_LIST :: "ModelInfo list \<Rightarrow> ModelInfo list" where
  "MODEL_LIST discovered = discovered @ staticModels"

section \<open>Messages and the model directive (stream-text.ts)\<close>

datatype msg_role = User | Assistant | System | Tool

text \<open>
  The content of a \<open>CoreMessage\<close> is either a string or an array of parts; the parts are
  opaque here, since the code only tests \<open>typeof message.content !== 'string'\<close>.
\<close>

datatype msg_content = Text string | Parts "string list"

record message =
  role :: msg_role
  content :: msg_content

text \<open>
  The regular expression \<open>/^\[Model: (.*?)\]\n\n/\<close> has no flags: \<open>^\<close> is the start of the
  input, and \<open>.\<close> matches any code unit but the line terminators LF, CR, U+2028 and
  U+2029 (in UTF-8 the last two are the bytes E2 80 A8 and E2 80 A9). The lazy group
  takes the shortest run of such characters that is followed by \<open>]\<close>, LF, LF.
\<close>

definition LF :: char where
  "LF = CHR 0x0A"

definition lineTerminatorAt :: "string \<Rightarrow> bool" where
  "lineTerminatorAt s =
     (prefix [CHR 0x0A] s \<or> prefix [CHR 0x0D] s \<or>
      prefix [CHR 0xE2, CHR 0x80, CHR 0xA8] s \<or> prefix [CHR 0xE2, CHR 0x80, CHR 0xA9] s)"

definition closing :: string where
  "closing = [CHR '']'', LF, LF]"

text \<open>
  \<open>lazyGroup s\<close> matches \<open>(.*?)\]\n\n\<close> at the start of \<open>s\<close>: the captured group and the
  text after the match, or \<open>None\<close> when there is no match.
\<close>

fun lazyGroup :: "string \<Rightarrow> (string \<times> string) option" where
  "lazyGroup [] = None"
| "lazyGroup (c # cs) =
     (if prefix closing (c # cs) then Some ([], drop 3 (c # cs))
      else if lineTerminatorAt (c # cs) then None
      else (case lazyGroup cs of
              None \<Rightarrow> None
            | Some (g, rest) \<Rightarrow> Some (c # g, rest)))"

text \<open>
  \<open>modelRegex s\<close> is \<open>s.match(modelRegex)\<close> together with \<open>s.replace(modelRegex, '')\<close>:
  \<open>Some (match[1], replaced)\<close> on a match, \<open>None\<close> for \<open>null\<close>.
\<close>

definition modelRegex :: "string \<Rightarrow> (string \<times> string) option" where
  "modelRegex s = (if prefix ''[Model: '' s then lazyGroup (drop 8 s) else None)"

definition extractModelFromMessage :: "message \<Rightarrow> string \<times> string" where
  "extractModelFromMessage m =
     (case content m of
        Parts ps \<Rightarrow> (DEFAULT_MODEL, [])
      | Text s \<Rightarrow>
          (case modelRegex s of
             Some (model, c) \<Rightarrow> (model, c)
           | None \<Rightarrow> (DEFAULT_MODEL, s)))"

text \<open>
  The arguments \<open>streamText\<close> hands to the SDK: the provider and model that \<open>getModel\<close>
  receives and the processed messages.
\<close>

record call =
  c_provider :: string
  c_model :: string
  c_messages :: "message list"

text \<open>\<open>MODEL_LIST.find((m) => m.name === model)\<close>: the first entry with that name.\<close>

definition findModel :: "ModelInfo list \<Rightarrow> string \<Rightarrow> ModelInfo option" where
  "findModel models model = find (\<lambda>i. name i = model) models"

text \<open>
  The callback of \<open>messages.map\<close>, with the captured variable \<open>currentModel\<close> passed in
  and out. An empty string is falsy, so \<open>model && MODEL_LIST.find(...)\<close> needs a
  non-empty identifier that names an entry of the list.
\<close>

definition mapMessage :: "ModelInfo list \<Rightarrow> string \<Rightarrow> message \<Rightarrow> string \<times> message" where
  "mapMessage models currentModel m =
     (if role m = User then
        (case extractModelFromMessage m of
           (model, c) \<Rightarrow>
             (if model \<noteq> [] \<and> findModel models model \<noteq> None
              then model else currentModel,
              m\<lparr>content := Text c\<rparr>))
      else (currentModel, m))"

fun processMessages :: "ModelInfo list \<Rightarrow> string \<Rightarrow> message list \<Rightarrow> string \<times> message list" where
  "processMessages models currentModel [] = (currentModel, [])"
| "processMessages models currentModel (m # ms) =
     (case mapMessage models currentModel m of
        (cur1, m1) \<Rightarrow>
          (case processMessages models cur1 ms of
             (cur2, ms1) \<Rightarrow> (cur2, m1 # ms1)))"

text \<open>
  \<open>MODEL_LIST.find(...)?.provider || DEFAULT_PROVIDER\<close>: the provider of the first entry
  with that name, or the default when there is none or its provider is the empty string.
\<close>

definition providerOf :: "ModelInfo list \<Rightarrow> string \<Rightarrow> string" where
  "providerOf models currentModel =
     (case findModel models currentModel of
        None \<Rightarrow> DEFAULT_PROVIDER
      | Some i \<Rightarrow> (if provider i = [] then DEFAULT_PROVIDER else provider i))"

definition streamTextArgs :: "ModelInfo list \<Rightarrow> message list \<Rightarrow> call" where
  "streamTextArgs models messages =
     (case processMessages models DEFAULT_MODEL messages of
        (currentModel, processedMessages) \<Rightarrow>
          \<lparr>c_provider = providerOf models currentModel,
           c_model = currentModel,
           c_messages = processedMessages\<rparr>)"

section \<open>Streams of the platform\<close>

text \<open>
  The stream objects the code calls are those of the WHATWG Streams standard. A source
  stream is modelled by its state, the chunks it still has to deliver, whether a reader
  holds its lock, and what its underlying source's cancel algorithm does (\<open>None\<close>: it
  completes; \<open>Some e\<close>: it throws \<open>e\<close>).
\<close>

datatype error = Error string | TypeError string

type_synonym chunk = string

datatype stream_state = Readable | Closed | Errored error

record source =
  sstate :: stream_state
  pending :: "chunk list"
  locked :: bool
  cancelFails :: "error option"

text \<open>
  \<open>reader.cancel()\<close>: the outcome of the returned promise (\<open>None\<close> fulfilled, \<open>Some e\<close>
  rejected with \<open>e\<close>) and the stream afterwards. A readable stream is closed and its
  queue is dropped before the cancel algorithm runs, so it is closed also when that
  algorithm throws; a closed stream is left alone; an errored stream rejects with the
  stored error.
\<close>

definition readerCancel :: "source \<Rightarrow> error option \<times> source" where
  "readerCancel src =
     (case sstate src of
        Readable \<Rightarrow> (cancelFails src, src\<lparr>sstate := Closed, pending := []\<rparr>)
      | Closed \<Rightarrow> (None, src)
      | Errored e \<Rightarrow> (Some e, src))"

definition getReader :: "source \<Rightarrow> error + source" where
  "getReader src =
     (if locked src then Inl (TypeError ''ReadableStream is locked'')
      else Inr (src\<lparr>locked := True\<rparr>))"

text \<open>
  The controller of the \<open>TransformStream\<close>: its state and the chunks \<open>enqueue\<close> has
  accepted, which is what the caller reads from \<open>stream.readable\<close> (after \<open>error\<close> the
  platform drops accepted chunks the caller has not taken yet, never one it has taken).
  \<open>Terminated\<close> is the normal end of stream. \<open>terminate\<close> and \<open>error\<close> do nothing on a
  controller that is no longer open; \<open>enqueue\<close> throws there.
\<close>

datatype ctl_state = Open | Terminated | Failed error

record ts_controller =
  cstate :: ctl_state
  emitted :: "chunk list"

definition enqueue :: "chunk \<Rightarrow> ts_controller \<Rightarrow> error + ts_controller" where
  "enqueue x c =
     (if cstate c = Open then Inr (c\<lparr>emitted := emitted c @ [x]\<rparr>)
      else Inl (TypeError ''Readable side is not in a state that permits enqueue''))"

definition terminate :: "ts_controller \<Rightarrow> ts_controller" where
  "terminate c = (if cstate c = Open then c\<lparr>cstate := Terminated\<rparr> else c)"

definition controllerError :: "error \<Rightarrow> ts_controller \<Rightarrow> ts_controller" where
  "controllerError e c = (if cstate c = Open then c\<lparr>cstate := Failed e\<rparr> else c)"

section \<open>SwitchableStream (switchable-stream.ts)\<close>

text \<open>
  The private fields \<open>_controller\<close>, \<open>_currentReader\<close> and \<open>_switches\<close>, the streams the
  object can reach (a store from addresses to streams; a reader is the address of the
  stream it locks), and \<open>pumping\<close>: whether an invocation of \<open>_pumpStream\<close> is suspended
  in its loop.
\<close>

record SwitchableStream =
  streams :: "nat \<Rightarrow> source option"
  controller :: "ts_controller option"
  currentReader :: "nat option"
  pumping :: bool
  switches :: nat

text \<open>
  The constructor: \<open>start\<close> runs inside \<open>super(...)\<close>, so the controller is captured and
  the check that follows does not throw.
\<close>

definition newSwitchableStream :: "(nat \<Rightarrow> source option) \<Rightarrow> SwitchableStream" where
  "newSwitchableStream heap =
     \<lparr>streams = heap, controller = Some \<lparr>cstate = Open, emitted = []\<rparr>,
      currentReader = None, pumping = False, switches = 0\<rparr>"

text \<open>
  \<open>if (this._currentReader) { ... this._currentReader.cancel() }\<close>, as both \<open>switchSource\<close>
  and \<open>close\<close> start: the outcome of the promise and the object afterwards.
\<close>

definition cancelCurrent :: "SwitchableStream \<Rightarrow> error option \<times> SwitchableStream" where
  "cancelCurrent s =
     (case currentReader s of
        None \<Rightarrow> (None, s)
      | Some r \<Rightarrow>
          (case streams s r of
             None \<Rightarrow> (None, s)
           | Some src \<Rightarrow>
               (case readerCancel src of
                  (res, src') \<Rightarrow> (res, s\<lparr>streams := (streams s)(r \<mapsto> src')\<rparr>))))"

text \<open>
  One turn of the loop of \<open>_pumpStream\<close>: a read of the current reader. An errored stream
  makes the read throw, and the \<open>catch\<close> block calls \<open>controller.error\<close>; a closed stream
  gives \<open>done\<close> and the loop ends; a readable stream with nothing to deliver leaves the
  read pending; otherwise the chunk is enqueued, and an exception of \<open>enqueue\<close> reaches
  the same \<open>catch\<close> block.
\<close>

definition pumpRead :: "SwitchableStream \<Rightarrow> SwitchableStream" where
  "pumpRead s =
     (if \<not> pumping s then s
      else case currentReader s of
        None \<Rightarrow> s
      | Some r \<Rightarrow>
          (case controller s of
             None \<Rightarrow> s
           | Some c \<Rightarrow>
               (case streams s r of
                  None \<Rightarrow> s
                | Some src \<Rightarrow>
                    (case sstate src of
                       Errored e \<Rightarrow> s\<lparr>controller := Some (controllerError e c), pumping := False\<rparr>
                     | Closed \<Rightarrow> s\<lparr>pumping := False\<rparr>
                     | Readable \<Rightarrow>
                         (case pending src of
                            [] \<Rightarrow> s
                          | x # xs \<Rightarrow>
                              (case enqueue x c of
                                 Inl err \<Rightarrow>
                                   s\<lparr>streams := (streams s)(r \<mapsto> src\<lparr>pending := xs\<rparr>),
                                     controller := Some (controllerError err c),
                                     pumping := False\<rparr>
                               | Inr c' \<Rightarrow>
                                   s\<lparr>streams := (streams s)(r \<mapsto> src\<lparr>pending := xs\<rparr>),
                                     controller := Some c'\<rparr>))))))"

text \<open>\<open>pumpStream k\<close>: the loop makes \<open>k\<close> reads.\<close>

fun pumpStream :: "nat \<Rightarrow> SwitchableStream \<Rightarrow> SwitchableStream" where
  "pumpStream 0 s = s"
| "pumpStream (Suc k) s = pumpStream k (pumpRead s)"

text \<open>
  A method either returns with the object updated (\<open>Inr\<close>) or throws, leaving the object
  as it was at the throw (\<open>Inl\<close>). \<open>switchSource\<close> awaits the cancellation, so a rejected
  promise is thrown there, before the new reader is taken. \<open>_pumpStream()\<close> is called
  without \<open>await\<close>: when it throws for a missing controller, the rejection is dropped and
  no loop runs.
\<close>

definition switchSource :: "nat \<Rightarrow> SwitchableStream \<Rightarrow> (error \<times> SwitchableStream) + SwitchableStream" where
  "switchSource newStream s =
     (case cancelCurrent s of
        (Some e, s1) \<Rightarrow> Inl (e, s1)
      | (None, s1) \<Rightarrow>
          (case streams s1 newStream of
             None \<Rightarrow> Inl (TypeError ''newStream is not a stream'', s1)
           | Some src \<Rightarrow>
               (case getReader src of
                  Inl e \<Rightarrow> Inl (e, s1)
                | Inr src' \<Rightarrow>
                    Inr (s1\<lparr>streams := (streams s1)(newStream \<mapsto> src'),
                            currentReader := Some newStream,
                            pumping := (controller s1 \<noteq> None),
                            switches := Suc (switches s1)\<rparr>))))"

text \<open>
  \<open>close\<close> does not await the cancellation, so its outcome is dropped, and \<open>terminate\<close>
  does not throw.
\<close>

definition close :: "SwitchableStream \<Rightarrow> (error \<times> SwitchableStream) + SwitchableStream" where
  "close s =
     (case cancelCurrent s of
        (res, s1) \<Rightarrow> Inr (s1\<lparr>controller := map_option terminate (controller s1)\<rparr>))"

section \<open>The chat action (api.chat.ts)\<close>

definition MAX_RESPONSE_SEGMENTS :: nat where
  "MAX_RESPONSE_SEGMENTS = 2"

datatype finish_reason = Stop | Length | ContentFilter | ToolCalls | ErrorReason | Other | Unknown

text \<open>
  What one call of the SDK's \<open>streamText\<close> yields: the chunks of \<open>result.toAIStream()\<close>, and
  the text and finish reason it passes to \<open>onFinish\<close> when the generation ends.
\<close>

record response =
  r_chunks :: "chunk list"
  r_text :: string
  r_finish :: finish_reason

text \<open>
  The surroundings of a session: the current \<open>MODEL_LIST\<close>; \<open>CONTINUE_PROMPT\<close>, whose
  module is not among the sources; the SDK with the provider behind it, as a function of
  the number of earlier calls and the arguments, which fails or yields a response; and
  \<open>pumped i\<close>, the number of reads the pump makes of the stream of segment \<open>i\<close> before the
  completion callback of that segment cancels it.
\<close>

record env =
  modelList :: "ModelInfo list"
  continuePrompt :: string
  sdk :: "nat \<Rightarrow> call \<Rightarrow> error + response"
  pumped :: "nat \<Rightarrow> nat"

text \<open>
  The state of one request: the \<open>messages\<close> array the callback pushes to, the stream,
  and a log of the SDK calls made and of the responses obtained.
\<close>

record session =
  messages :: "message list"
  stream :: SwitchableStream
  calls :: "call list"
  segments :: "response list"

definition streamText :: "env \<Rightarrow> session \<Rightarrow> (error \<times> session) + (response \<times> session)" where
  "streamText env ss =
     (case sdk env (length (calls ss)) (streamTextArgs (modelList env) (messages ss)) of
        Inl e \<Rightarrow> Inl (e, ss\<lparr>calls := calls ss @ [streamTextArgs (modelList env) (messages ss)]\<rparr>)
      | Inr result \<Rightarrow>
          Inr (result, ss\<lparr>calls := calls ss @ [streamTextArgs (modelList env) (messages ss)],
                          segments := segments ss @ [result]\<rparr>))"

text \<open>
  \<open>result.toAIStream()\<close> makes a new stream: readable, unlocked, with the chunks of the
  response, whose cancellation completes. The stream of segment \<open>i\<close> is stored at
  address \<open>i\<close>.
\<close>

definition aiStream :: "response \<Rightarrow> source" where
  "aiStream result = \<lparr>sstate = Readable, pending = r_chunks result, locked = False, cancelFails = None\<rparr>"

definition toAIStream :: "response \<Rightarrow> session \<Rightarrow> nat \<times> session" where
  "toAIStream result ss =
     (length (segments ss) - 1,
      ss\<lparr>stream := (stream ss)\<lparr>streams := (streams (stream ss))(length (segments ss) - 1 \<mapsto> aiStream result)\<rparr>\<rparr>)"

text \<open>
  The \<open>onFinish\<close> callback of \<open>chatAction\<close>. It returns \<open>None\<close> after closing the stream and
  \<open>Some result\<close> after switching to the stream of a new segment, whose completion will
  call it again.
\<close>

definition onFinish :: "env \<Rightarrow> session \<Rightarrow> string \<Rightarrow> finish_reason \<Rightarrow> (error \<times> session) + (response option \<times> session)" where
  "onFinish env ss text finishReason =
     (if finishReason \<noteq> Length then
        (case close (stream ss) of
           Inl (e, st) \<Rightarrow> Inl (e, ss\<lparr>stream := st\<rparr>)
         | Inr st \<Rightarrow> Inr (None, ss\<lparr>stream := st\<rparr>))
      else if switches (stream ss) \<ge> MAX_RESPONSE_SEGMENTS then
        Inl (Error ''Cannot continue message: Maximum segments reached'', ss)
      else
        (case streamText env
                (ss\<lparr>messages := messages ss @
                      [\<lparr>role = Assistant, content = Text text\<rparr>,
                       \<lparr>role = User, content = Text (continuePrompt env)\<rparr>]\<rparr>) of
           Inl (e, ss1) \<Rightarrow> Inl (e, ss1)
         | Inr (result, ss1) \<Rightarrow>
             (case toAIStream result ss1 of
                (sid, ss2) \<Rightarrow>
                  (case switchSource sid (stream ss2) of
                     Inl (e, st) \<Rightarrow> Inl (e, ss2\<lparr>stream := st\<rparr>)
                   | Inr st \<Rightarrow> Inr (Some result, ss2\<lparr>stream := st\<rparr>)))))"

text \<open>
  How a request ends: the \<open>catch\<close> block answered with status 500; or the stream was
  returned to the caller and the last \<open>onFinish\<close> returned after closing it; or the last
  \<open>onFinish\<close> threw.
\<close>

datatype outcome = ServerError error session | Completed session | Aborted error session

fun final :: "outcome \<Rightarrow> session" where
  "final (ServerError e ss) = ss"
| "final (Completed ss) = ss"
| "final (Aborted e ss) = ss"

fun thrown :: "outcome \<Rightarrow> error option" where
  "thrown (ServerError e ss) = Some e"
| "thrown (Completed ss) = None"
| "thrown (Aborted e ss) = Some e"

lemma switches_pumpRead: "switches (pumpRead s) = switches s"
  by (simp add: pumpRead_def split: option.splits stream_state.splits list.splits sum.splits)

lemma switches_pumpStream: "switches (pumpStream k s) = switches s"
  by (induction k arbitrary: s) (simp_all add: switches_pumpRead)

lemma switches_cancelCurrent: "cancelCurrent s = (res, s1) \<Longrightarrow> switches s1 = switches s"
  by (auto simp: cancelCurrent_def split: option.splits prod.splits)

lemma switches_switchSource: "switchSource n s = Inr s1 \<Longrightarrow> switches s1 = Suc (switches s)"
  by (auto simp: switchSource_def split: option.splits prod.splits sum.splits
      dest: switches_cancelCurrent)

lemma onFinish_switched:
  assumes "onFinish env ss text reason = Inr (Some result, ss1)"
  shows "switches (stream ss) < MAX_RESPONSE_SEGMENTS \<and> switches (stream ss1) = Suc (switches (stream ss))"
  using assms
  by (auto simp: onFinish_def streamText_def toAIStream_def
      split: if_splits sum.splits prod.splits dest!: switches_switchSource)

text \<open>
  The life of segment \<open>i\<close>, whose stream has just been installed: the pump makes
  \<open>pumped env i\<close> reads, the SDK reports the end of the generation to \<open>onFinish\<close>, and when
  that has switched to a new segment the same happens to it.
\<close>

function run :: "env \<Rightarrow> nat \<Rightarrow> session \<Rightarrow> response \<Rightarrow> outcome" where
  "run env i ss result =
     (case onFinish env (ss\<lparr>stream := pumpStream (pumped env i) (stream ss)\<rparr>)
             (r_text result) (r_finish result) of
        Inl (e, ss1) \<Rightarrow> Aborted e ss1
      | Inr (None, ss1) \<Rightarrow> Completed ss1
      | Inr (Some result1, ss1) \<Rightarrow> run env (Suc i) ss1 result1)"
  by pat_completeness auto
termination
  apply (relation "measure (\<lambda>(env, i, ss, result). MAX_RESPONSE_SEGMENTS - switches (stream ss))")
   apply simp
  apply (auto dest!: onFinish_switched simp: switches_pumpStream)
  done

text \<open>
  \<open>chatAction\<close>, from the parsed request body on. A failure of the first \<open>streamText\<close> is
  caught and answered with status 500. The first \<open>switchSource\<close> is not awaited, so a
  rejection of it is dropped.
\<close>

definition chatAction :: "env \<Rightarrow> message list \<Rightarrow> outcome" where
  "chatAction env msgs =
     (case streamText env
             \<lparr>messages = msgs, stream = newSwitchableStream Map.empty, calls = [], segments = []\<rparr> of
        Inl (e, ss1) \<Rightarrow> ServerError e ss1
      | Inr (result, ss1) \<Rightarrow>
          (case toAIStream result ss1 of
             (sid, ss2) \<Rightarrow>
               run env 0
                 (ss2\<lparr>stream := (case switchSource sid (stream ss2) of
                                    Inl (e, st) \<Rightarrow> st
                                  | Inr st \<Rightarrow> st)\<rparr>)
                 result))"

declare run.simps [simp del]

section \<open>Notions used in the statements\<close>

text \<open>
  The directive as the specification writes it: \<open>[Model: X]\<close> followed by a blank line.
  \<open>noLineTerminator X\<close>: no line terminator starts anywhere in \<open>X\<close>.
\<close>

definition directive :: "string \<Rightarrow> string" where
  "directive X = ''[Model: '' @ X @ closing"

fun noLineTerminator :: "string \<Rightarrow> bool" where
  "noLineTerminator [] = True"
| "noLineTerminator (c # cs) = (\<not> lineTerminatorAt (c # cs) \<and> noLineTerminator cs)"

definition userMessage :: "string \<Rightarrow> message" where
  "userMessage s = \<lparr>role = User, content = Text s\<rparr>"

definition assistantMessage :: "string \<Rightarrow> message" where
  "assistantMessage s = \<lparr>role = Assistant, content = Text s\<rparr>"

text \<open>A message carries a directive when its content is a string the expression matches.\<close>

definition carriesDirective :: "message \<Rightarrow> bool" where
  "carriesDirective m = (case content m of Text s \<Rightarrow> modelRegex s \<noteq> None | Parts ps \<Rightarrow> False)"

text \<open>What a method threw, and the object it left.\<close>

fun thrownBy :: "(error \<times> 'a) + 'a \<Rightarrow> error option" where
  "thrownBy (Inl (e, s)) = Some e"
| "thrownBy (Inr s) = None"

fun stateAfter :: "(error \<times> 'a) + 'a \<Rightarrow> 'a" where
  "stateAfter (Inl (e, s)) = s"
| "stateAfter (Inr s) = s"

text \<open>
  The chunks the output channel of a session has accepted, and the chunks of the segments
  \<open>rs\<close> (numbered from \<open>i\<close>) that the pump read before each segment was cancelled.
\<close>

definition delivered :: "session \<Rightarrow> chunk list" where
  "delivered ss = (case controller (stream ss) of None \<Rightarrow> [] | Some c \<Rightarrow> emitted c)"

fun forwarded :: "(nat \<Rightarrow> nat) \<Rightarrow> nat \<Rightarrow> response list \<Rightarrow> chunk list" where
  "forwarded p i [] = []"
| "forwarded p i (r # rs) = take (p i) (r_chunks r) @ forwarded p (Suc i) rs"

definition routes :: "outcome \<Rightarrow> (string \<times> string) list" where
  "routes out = map (\<lambda>c. (c_provider c, c_model c)) (calls (final out))"

definition capError :: error where
  "capError = Error ''Cannot continue message: Maximum segments reached''"

text \<open>The two messages \<open>onFinish\<close> pushes before it continues.\<close>

definition continuation :: "env \<Rightarrow> string \<Rightarrow> message list" where
  "continuation env t =
     [\<lparr>role = Assistant, content = Text t\<rparr>, \<lparr>role = User, content = Text (continuePrompt env)\<rparr>]"

text \<open>
  The shapes the stream of a session takes: \<open>reading heap i xs out n\<close> while the stream of
  segment \<open>i\<close> is installed, with \<open>xs\<close> still to deliver and \<open>out\<close> accepted so far, and
  \<open>ended heap i out n\<close> after \<open>close\<close>.
\<close>

definition readable :: "chunk list \<Rightarrow> source" where
  "readable xs = \<lparr>sstate = Readable, pending = xs, locked = True, cancelFails = None\<rparr>"

definition cancelled :: source where
  "cancelled = \<lparr>sstate = Closed, pending = [], locked = True, cancelFails = None\<rparr>"

definition reading :: "(nat \<Rightarrow> source option) \<Rightarrow> nat \<Rightarrow> chunk list \<Rightarrow> chunk list \<Rightarrow> nat \<Rightarrow> SwitchableStream" where
  "reading heap i xs out n =
     \<lparr>streams = heap(i \<mapsto> readable xs),
      controller = Some \<lparr>cstate = Open, emitted = out\<rparr>,
      currentReader = Some i, pumping = True, switches = n\<rparr>"

definition ended :: "(nat \<Rightarrow> source option) \<Rightarrow> nat \<Rightarrow> chunk list \<Rightarrow> nat \<Rightarrow> SwitchableStream" where
  "ended heap i out n =
     \<lparr>streams = heap(i \<mapsto> cancelled),
      controller = Some \<lparr>cstate = Terminated, emitted = out\<rparr>,
      currentReader = Some i, pumping = True, switches = n\<rparr>"

subsection \<open>Sample inputs\<close>

definition unknownAfterKnown :: "message list" where
  "unknownAfterKnown =
     [userMessage (directive ''gpt-4o'' @ ''Hi''), assistantMessage ''Hello!'',
      userMessage (directive ''no-such-model'' @ ''Bye'')]"

definition emptyAfterKnown :: "message list" where
  "emptyAfterKnown =
     [userMessage (directive ''gpt-4o'' @ ''Hi''), assistantMessage ''Hello!'',
      userMessage (directive [] @ ''Bye'')]"

definition plainAfterKnown :: "message list" where
  "plainAfterKnown =
     [userMessage (directive ''gpt-4o'' @ ''Hi''), assistantMessage ''Hello!'',
      userMessage ''Bye'']"

text \<open>
  What \<open>getOpenAILikeModels\<close> yields for an endpoint that lists a model under the default
  model's name.
\<close>

definition shadowing :: "ModelInfo list" where
  "shadowing =
     [\<lparr>name = ''claude-3-5-sonnet-20240620'', label = ''claude-3-5-sonnet-20240620'',
       provider = ''OpenAILike''\<rparr>]"

definition hello :: "message list" where
  "hello = [userMessage (directive ''gpt-4o'' @ ''Hello'')]"

text \<open>
  A stream object reading the stream at address 0, with a second stream at address 1
  that no reader holds.
\<close>

definition openSource :: "chunk list \<Rightarrow> error option \<Rightarrow> source" where
  "openSource xs cf = \<lparr>sstate = Readable, pending = xs, locked = False, cancelFails = cf\<rparr>"

definition attachedTo :: "source \<Rightarrow> source \<Rightarrow> SwitchableStream" where
  "attachedTo old new =
     \<lparr>streams = [0 \<mapsto> old\<lparr>locked := True\<rparr>, 1 \<mapsto> new],
      controller = Some \<lparr>cstate = Open, emitted = [''x'']\<rparr>,
      currentReader = Some 0, pumping = True, switches = 1\<rparr>"

definition cancelFailing :: SwitchableStream where
  "cancelFailing = attachedTo (openSource [''a''] (Some (Error ''cancel failed''))) (openSource [''b''] None)"

text \<open>
  Simulated providers: one that answers the \<open>i\<close>-th call with the \<open>i\<close>-th response of a
  script, one that always gives the same response; and a pump that makes \<open>k\<close> reads of
  every segment.
\<close>

definition segment :: "chunk list \<Rightarrow> finish_reason \<Rightarrow> response" where
  "segment xs reason = \<lparr>r_chunks = xs, r_text = concat xs, r_finish = reason\<rparr>"

definition sdkScript :: "response list \<Rightarrow> nat \<Rightarrow> call \<Rightarrow> error + response" where
  "sdkScript rs i c = (if i < length rs then Inr (rs ! i) else Inl (Error ''no response''))"

definition sdkAlways :: "response \<Rightarrow> nat \<Rightarrow> call \<Rightarrow> error + response" where
  "sdkAlways r i c = Inr r"

definition always :: "nat \<Rightarrow> nat \<Rightarrow> nat" where
  "always k i = k"

definition simulated :: "(nat \<Rightarrow> call \<Rightarrow> error + response) \<Rightarrow> nat \<Rightarrow> env" where
  "simulated f k =
     \<lparr>modelList = MODEL_LIST [], continuePrompt = ''Continue your prior response.'',
      sdk = f, pumped = always k\<rparr>"

definition threeLengths :: env where
  "threeLengths =
     simulated (sdkScript [segment [''a''] Length, segment [''b''] Length, segment [''c''] Length]) 1"

definition errorAtFirst :: env where
  "errorAtFirst = simulated (sdkScript [segment [''a'', ''b''] ErrorReason]) 2"

definition lengthThenStop :: "nat \<Rightarrow> env" where
  "lengthThenStop k = simulated (sdkScript [segment [''a'', ''b''] Length, segment [''c''] Stop]) k"

text \<open>The session right after \<open>chatAction\<close> has installed the stream of the first response.\<close>

definition firstAttached :: "response \<Rightarrow> session" where
  "firstAttached r =
     \<lparr>messages = hello, stream = reading Map.empty 0 (r_chunks r) [] 1,
      calls = [streamTextArgs (MODEL_LIST []) hello], segments = [r]\<rparr>"

lemmas eval_defs = userMessage_def assistantMessage_def directive_def closing_def LF_def
  modelRegex_def lineTerminatorAt_def extractModelFromMessage_def mapMessage_def findModel_def
  staticModels_def MODEL_LIST_def providerOf_def streamTextArgs_def DEFAULT_MODEL_def
  DEFAULT_PROVIDER_def carriesDirective_def

section \<open>The directive parser\<close>

lemma lazyGroup_closing: "lazyGroup (closing @ rest) = Some ([], rest)"
  by (simp add: closing_def)

text \<open>
  The expression matches \<open>[Model: X]\<close> plus blank line exactly when \<open>X\<close> holds no line
  terminator, and then captures \<open>X\<close> and removes that prefix; conversely every match has
  this shape.
\<close>

lemma lazyGroup_exact:
  "noLineTerminator X \<Longrightarrow> lazyGroup (X @ closing @ rest) = Some (X, rest)"
proof (induction X)
  case Nil
  then show ?case by (simp add: lazyGroup_closing)
next
  case (Cons c cs)
  from Cons.prems have nt: "\<not> lineTerminatorAt (c # cs)" and rest: "noLineTerminator cs"
    by simp_all
  have a: "\<not> prefix closing (c # cs @ closing @ rest)"
    using nt rest by (cases cs) (auto simp: closing_def LF_def lineTerminatorAt_def)
  have b: "\<not> lineTerminatorAt (c # cs @ closing @ rest)"
  proof (cases cs)
    case Nil
    then show ?thesis using nt by (auto simp: closing_def LF_def lineTerminatorAt_def)
  next
    case (Cons d ds)
    then show ?thesis using nt
      by (cases ds) (auto simp: closing_def LF_def lineTerminatorAt_def)
  qed
  show ?case using a b Cons.IH [OF rest] by simp
qed

lemma modelRegex_directive:
  "noLineTerminator X \<Longrightarrow> modelRegex (directive X @ rest) = Some (X, rest)"
  by (simp add: modelRegex_def directive_def lazyGroup_exact)

lemma lazyGroup_shape:
  "lazyGroup s = Some (g, rest) \<Longrightarrow> s = g @ closing @ rest \<and> noLineTerminator g"
proof (induction s arbitrary: g rest)
  case Nil
  then show ?case by simp
next
  case (Cons c cs)
  show ?case
  proof (cases "prefix closing (c # cs)")
    case True
    with Cons.prems have "g = []" "rest = drop 3 (c # cs)" by auto
    moreover from True have "c # cs = closing @ drop 3 (c # cs)"
      by (auto simp: prefix_def closing_def)
    ultimately show ?thesis by simp
  next
    case False
    with Cons.prems obtain g' where nt: "\<not> lineTerminatorAt (c # cs)"
      and g': "lazyGroup cs = Some (g', rest)" and g: "g = c # g'"
      by (auto split: if_splits option.splits)
    from Cons.IH [OF g'] have cs: "cs = g' @ closing @ rest" and ng: "noLineTerminator g'" by simp_all
    have "\<not> lineTerminatorAt (c # g')"
      using nt cs by (cases g'; cases "tl g'") (auto simp: lineTerminatorAt_def closing_def LF_def)
    then show ?thesis using cs ng g by simp
  qed
qed

lemma modelRegex_shape:
  "modelRegex s = Some (X, rest) \<Longrightarrow> s = directive X @ rest \<and> noLineTerminator X"
  by (auto simp: modelRegex_def directive_def prefix_def split: if_splits dest!: lazyGroup_shape)

lemma no_directive_text:
  "\<forall>X rest. s \<noteq> directive X @ rest \<Longrightarrow> \<not> carriesDirective (userMessage s)"
  by (auto simp: carriesDirective_def userMessage_def dest: modelRegex_shape)

subsection \<open>Lookups in the registry\<close>

lemma findModel_append:
  "findModel (xs @ ys) m = (case findModel xs m of None \<Rightarrow> findModel ys m | Some i \<Rightarrow> Some i)"
  by (induction xs) (simp_all add: findModel_def)

lemma findModel_default_static:
  "findModel staticModels DEFAULT_MODEL =
     Some \<lparr>name = ''claude-3-5-sonnet-20240620'', label = ''Claude 3.5 Sonnet'', provider = ''Anthropic''\<rparr>"
  by (simp add: findModel_def staticModels_def DEFAULT_MODEL_def)

lemma default_known: "findModel (MODEL_LIST discovered) DEFAULT_MODEL \<noteq> None"
  by (simp add: MODEL_LIST_def findModel_append findModel_default_static split: option.splits)

lemma findModel_None: "m \<notin> name ` set xs \<Longrightarrow> findModel xs m = None"
  by (auto simp: findModel_def find_None_iff)

lemma providerOf_default:
  "DEFAULT_MODEL \<notin> name ` set discovered \<Longrightarrow>
   providerOf (MODEL_LIST discovered) DEFAULT_MODEL = DEFAULT_PROVIDER"
  by (simp add: providerOf_def MODEL_LIST_def findModel_append findModel_None
      findModel_default_static DEFAULT_PROVIDER_def)

subsection \<open>Processing a conversation\<close>

lemma processMessages_append:
  "processMessages models cur (xs @ ys) =
     (case processMessages models cur xs of
        (cur1, xs1) \<Rightarrow>
          (case processMessages models cur1 ys of
             (cur2, ys1) \<Rightarrow> (cur2, xs1 @ ys1)))"
  by (induction xs arbitrary: cur) (auto split: prod.splits)

lemma processMessages_no_user:
  "\<forall>m \<in> set ms. role m \<noteq> User \<Longrightarrow> processMessages models cur ms = (cur, ms)"
  by (induction ms) (auto simp: mapMessage_def)

lemma mapMessage_directive:
  "noLineTerminator X \<Longrightarrow>
   mapMessage models cur (userMessage (directive X @ rest)) =
     (if X \<noteq> [] \<and> findModel models X \<noteq> None then X else cur, userMessage rest)"
  by (simp add: mapMessage_def userMessage_def extractModelFromMessage_def modelRegex_directive)

lemma mapMessage_plain:
  "role m = User \<Longrightarrow> \<not> carriesDirective m \<Longrightarrow> findModel models DEFAULT_MODEL \<noteq> None \<Longrightarrow>
   fst (mapMessage models cur m) = DEFAULT_MODEL"
  by (auto simp: mapMessage_def carriesDirective_def extractModelFromMessage_def DEFAULT_MODEL_def
      split: msg_content.splits option.splits)

lemma streamTextArgs_split:
  "streamTextArgs models (pre @ m # post) =
     (case mapMessage models (c_model (streamTextArgs models pre)) m of
        (cur1, m1) \<Rightarrow>
          (case processMessages models cur1 post of
             (cur2, post1) \<Rightarrow>
               \<lparr>c_provider = providerOf models cur2, c_model = cur2,
                c_messages = c_messages (streamTextArgs models pre) @ m1 # post1\<rparr>))"
  by (simp add: streamTextArgs_def processMessages_append split: prod.splits)

lemma streamTextArgs_Nil: "streamTextArgs models [] =
  \<lparr>c_provider = providerOf models DEFAULT_MODEL, c_model = DEFAULT_MODEL, c_messages = []\<rparr>"
  by (simp add: streamTextArgs_def)

lemma directive_turn:
  assumes "noLineTerminator X" and "\<forall>m \<in> set post. role m \<noteq> User"
  shows "streamTextArgs models (pre @ userMessage (directive X @ rest) # post) =
     \<lparr>c_provider = providerOf models
        (if X \<noteq> [] \<and> findModel models X \<noteq> None then X else c_model (streamTextArgs models pre)),
      c_model = (if X \<noteq> [] \<and> findModel models X \<noteq> None then X else c_model (streamTextArgs models pre)),
      c_messages = c_messages (streamTextArgs models pre) @ userMessage rest # post\<rparr>"
  by (simp only: streamTextArgs_split mapMessage_directive [OF assms(1)]
      processMessages_no_user [OF assms(2)] prod.case)

lemma plain_turn:
  assumes "role m = User" and "\<not> carriesDirective m" and "\<forall>m' \<in> set post. role m' \<noteq> User"
    and "findModel models DEFAULT_MODEL \<noteq> None"
  shows "c_model (streamTextArgs models (pre @ m # post)) = DEFAULT_MODEL"
    and "c_provider (streamTextArgs models (pre @ m # post)) = providerOf models DEFAULT_MODEL"
  using mapMessage_plain [OF assms(1,2,4), of "c_model (streamTextArgs models pre)"]
  by (auto simp: streamTextArgs_split processMessages_no_user [OF assms(3)] split: prod.splits)

text \<open>
  C5, as the code has it. Let the latest user turn of a conversation be \<open>[Model: X]\<close>, a
  blank line and \<open>rest\<close>, where \<open>X\<close> holds no line terminator. Then the content forwarded
  for that turn is exactly \<open>rest\<close>, the other turns being forwarded as the earlier part of
  the conversation and the later non-user turns give them; the model of the call is \<open>X\<close>
  when \<open>X\<close> is non-empty and names an entry of the model list, and otherwise the model the
  turns before it resolve to, which is the default model when there is no turn before it;
  the provider is the one the list gives for that model.
\<close>

theorem directive_routing:
  assumes "noLineTerminator X" and "\<forall>m \<in> set post. role m \<noteq> User"
  shows "c_messages (streamTextArgs models (pre @ userMessage (directive X @ rest) # post)) =
           c_messages (streamTextArgs models pre) @ userMessage rest # post \<and>
         c_model (streamTextArgs models (pre @ userMessage (directive X @ rest) # post)) =
           (if X \<noteq> [] \<and> findModel models X \<noteq> None then X
            else c_model (streamTextArgs models pre)) \<and>
         c_provider (streamTextArgs models (pre @ userMessage (directive X @ rest) # post)) =
           providerOf models
             (c_model (streamTextArgs models (pre @ userMessage (directive X @ rest) # post))) \<and>
         c_model (streamTextArgs models []) = DEFAULT_MODEL"
  by (simp add: directive_turn [OF assms] streamTextArgs_Nil)

theorem directive_routing_witness:
  "c_messages (streamTextArgs (MODEL_LIST []) [userMessage (directive ''gpt-4o'' @ ''Hello'')]) =
     [userMessage ''Hello''] \<and>
   c_model (streamTextArgs (MODEL_LIST []) [userMessage (directive ''gpt-4o'' @ ''Hello'')]) = ''gpt-4o'' \<and>
   c_provider (streamTextArgs (MODEL_LIST []) [userMessage (directive ''gpt-4o'' @ ''Hello'')]) = ''OpenAI''"
  using directive_routing [of "''gpt-4o''" "[]" "MODEL_LIST []" "[]" "''Hello''"]
  by (simp add: eval_defs)

text \<open>
  C5 as stated fails: in \<open>unknownAfterKnown\<close> the latest user turn names a model that is
  not in the list, and the call goes to the model of the earlier turn, not to the
  default pair.
\<close>

theorem unknown_directive_keeps_earlier_model:
  "findModel (MODEL_LIST []) ''no-such-model'' = None \<and>
   c_model (streamTextArgs (MODEL_LIST []) unknownAfterKnown) = ''gpt-4o'' \<and>
   c_provider (streamTextArgs (MODEL_LIST []) unknownAfterKnown) = ''OpenAI'' \<and>
   c_model (streamTextArgs (MODEL_LIST []) unknownAfterKnown) \<noteq> DEFAULT_MODEL \<and>
   c_provider (streamTextArgs (MODEL_LIST []) unknownAfterKnown) \<noteq> DEFAULT_PROVIDER"
  by (simp add: unknownAfterKnown_def eval_defs)

text \<open>
  The condition on \<open>X\<close> is needed: \<open>.\<close> does not match a line feed, so a turn that
  starts with \<open>[Model: X]\<close> and a blank line where \<open>X\<close> spans two lines is not matched, and
  it is forwarded with its prefix.
\<close>

lemma identifier_with_line_feed:
  "modelRegex (directive (''a'' @ [LF] @ ''b'') @ ''Hello'') = None \<and>
   c_messages (streamTextArgs (MODEL_LIST []) [userMessage (directive (''a'' @ [LF] @ ''b'') @ ''Hello'')]) =
     [userMessage (directive (''a'' @ [LF] @ ''b'') @ ''Hello'')]"
  by (simp add: eval_defs)

text \<open>
  C6, as the code has it. When the latest user turn of a conversation carries no
  directive, the model of the call is \<open>DEFAULT_MODEL\<close>, whatever the earlier turns say
  and whatever models were discovered. The provider is the one of the first entry of the
  model list with that name: it is \<open>DEFAULT_PROVIDER\<close> whenever no discovered model
  carries the default model's name.
\<close>

theorem no_directive_default:
  assumes "role m = User" and "\<not> carriesDirective m" and "\<forall>m' \<in> set post. role m' \<noteq> User"
  shows "c_model (streamTextArgs (MODEL_LIST discovered) (pre @ m # post)) = DEFAULT_MODEL \<and>
         c_provider (streamTextArgs (MODEL_LIST discovered) (pre @ m # post)) =
           providerOf (MODEL_LIST discovered) DEFAULT_MODEL \<and>
         (DEFAULT_MODEL \<notin> name ` set discovered \<longrightarrow>
          c_provider (streamTextArgs (MODEL_LIST discovered) (pre @ m # post)) = DEFAULT_PROVIDER)"
  using plain_turn [OF assms default_known] by (simp add: providerOf_default)

theorem no_directive_default_witness:
  "c_model (streamTextArgs (MODEL_LIST []) plainAfterKnown) = DEFAULT_MODEL \<and>
   c_provider (streamTextArgs (MODEL_LIST []) plainAfterKnown) = DEFAULT_PROVIDER"
  using no_directive_default [of "userMessage ''Bye''" "[]" "[]"
      "[userMessage (directive ''gpt-4o'' @ ''Hi''), assistantMessage ''Hello!'']"]
  by (simp add: plainAfterKnown_def userMessage_def carriesDirective_def modelRegex_def
      providerOf_default)

text \<open>
  C6 as stated fails: \<open>initializeModelList\<close> puts the discovered models in front of the
  static ones and the provider is taken from the first entry with the model's name, so
  once an OpenAI-compatible endpoint lists a model under the default model's name, a turn
  without directive is routed to the default model at the provider \<open>OpenAILike\<close>.
\<close>

theorem discovered_model_shadows_default:
  "\<not> carriesDirective (userMessage ''Hello'') \<and>
   c_model (streamTextArgs (MODEL_LIST shadowing) [userMessage ''Hello'']) = DEFAULT_MODEL \<and>
   c_provider (streamTextArgs (MODEL_LIST shadowing) [userMessage ''Hello'']) = ''OpenAILike'' \<and>
   c_provider (streamTextArgs (MODEL_LIST shadowing) [userMessage ''Hello'']) \<noteq> DEFAULT_PROVIDER"
  by (simp add: shadowing_def eval_defs)

text \<open>
  C10, as the code has it. A user turn \<open>[Model: ]\<close> with a blank line has its prefix
  removed from the forwarded content and leaves the current model as it was: the call
  goes where the turns before it send it, and to the default model when the
  conversation starts with this turn.
\<close>

theorem empty_identifier:
  assumes "\<forall>m \<in> set post. role m \<noteq> User"
  shows "streamTextArgs models (pre @ userMessage (''[Model: ]'' @ [LF, LF] @ rest) # post) =
           (streamTextArgs models pre)
             \<lparr>c_messages := c_messages (streamTextArgs models pre) @ userMessage rest # post\<rparr> \<and>
         c_model (streamTextArgs models (userMessage (''[Model: ]'' @ [LF, LF] @ rest) # post)) =
           DEFAULT_MODEL"
proof -
  have d: "''[Model: ]'' @ [LF, LF] @ rest = directive [] @ rest"
    by (simp add: directive_def closing_def)
  have n: "noLineTerminator []" by simp
  have p: "providerOf models (c_model (streamTextArgs models pre)) = c_provider (streamTextArgs models pre)"
    by (simp add: streamTextArgs_def split: prod.splits)
  show ?thesis
    using directive_turn [OF n assms, of models pre rest]
      directive_turn [OF n assms, of models "[]" rest]
    by (simp only: d append_Nil) (simp add: p streamTextArgs_Nil)
qed

theorem empty_identifier_witness:
  "streamTextArgs (MODEL_LIST []) [userMessage (''[Model: ]'' @ [LF, LF] @ ''Hello'')] =
     \<lparr>c_provider = DEFAULT_PROVIDER, c_model = DEFAULT_MODEL, c_messages = [userMessage ''Hello'']\<rparr>"
  using empty_identifier [of "[]" "MODEL_LIST []" "[]" "''Hello''"]
  by (simp add: streamTextArgs_Nil providerOf_default)

text \<open>
  C10 as stated fails: in \<open>emptyAfterKnown\<close> the latest user turn has the empty
  identifier, its prefix is removed, and the call goes to the model of the earlier turn,
  not to the default model.
\<close>

theorem empty_identifier_keeps_earlier_model:
  "c_messages (streamTextArgs (MODEL_LIST []) emptyAfterKnown) =
     [userMessage ''Hi'', assistantMessage ''Hello!'', userMessage ''Bye''] \<and>
   c_model (streamTextArgs (MODEL_LIST []) emptyAfterKnown) = ''gpt-4o'' \<and>
   c_model (streamTextArgs (MODEL_LIST []) emptyAfterKnown) \<noteq> DEFAULT_MODEL"
  by (simp add: emptyAfterKnown_def eval_defs)

section \<open>The stream object\<close>

lemma terminate_idem: "terminate (terminate c) = terminate c"
  by (simp add: terminate_def)

lemma cancelCurrent_idem: "snd (cancelCurrent (snd (cancelCurrent s))) = snd (cancelCurrent s)"
  by (auto simp: cancelCurrent_def readerCancel_def split: option.splits stream_state.splits)

lemma cancelCurrent_fields:
  "controller (snd (cancelCurrent s)) = controller s"
  "currentReader (snd (cancelCurrent s)) = currentReader s"
  "switches (snd (cancelCurrent s)) = switches s"
  "pumping (snd (cancelCurrent s)) = pumping s"
  by (auto simp: cancelCurrent_def split: option.splits prod.splits)

lemma close_eq: "close s = Inr ((snd (cancelCurrent s))\<lparr>controller := map_option terminate (controller s)\<rparr>)"
  using cancelCurrent_fields(1) [of s] by (cases "cancelCurrent s") (simp add: close_def)

lemma cancelCurrent_controller_update:
  "cancelCurrent (s\<lparr>controller := c\<rparr>) = (fst (cancelCurrent s), (snd (cancelCurrent s))\<lparr>controller := c\<rparr>)"
  by (auto simp: cancelCurrent_def split: option.splits prod.splits)

text \<open>
  C8. \<open>close\<close> returns without throwing; it cancels the stream of the current reader, if
  there is one (a readable stream becomes closed, a closed or errored one stays as it
  is), and ends the output normally when it was still open, keeping the chunks accepted
  so far; a second \<open>close\<close> returns without throwing and leaves the object as the first
  one left it.
\<close>

theorem close_idempotent:
  "\<exists>s1. close s = Inr s1 \<and> close s1 = Inr s1 \<and>
        map_option cstate (controller s1) =
          map_option (\<lambda>c. if cstate c = Open then Terminated else cstate c) (controller s) \<and>
        map_option emitted (controller s1) = map_option emitted (controller s) \<and>
        (case currentReader s of
           None \<Rightarrow> streams s1 = streams s
         | Some r \<Rightarrow>
             (case streams s r of
                None \<Rightarrow> streams s1 = streams s
              | Some src \<Rightarrow>
                  map_option sstate (streams s1 r) =
                    Some (if sstate src = Readable then Closed else sstate src)))"
proof -
  let ?s1 = "(snd (cancelCurrent s))\<lparr>controller := map_option terminate (controller s)\<rparr>"
  have 1: "close s = Inr ?s1" by (rule close_eq)
  have 2: "close ?s1 = Inr ?s1"
    by (simp add: close_eq cancelCurrent_controller_update cancelCurrent_idem
        option.map_comp comp_def terminate_idem)
  have 3: "map_option cstate (controller ?s1) =
          map_option (\<lambda>c. if cstate c = Open then Terminated else cstate c) (controller s)"
    by (simp add: option.map_comp comp_def terminate_def if_distrib cong: if_cong)
  have 4: "map_option emitted (controller ?s1) = map_option emitted (controller s)"
    by (simp add: option.map_comp comp_def terminate_def if_distrib cong: if_cong)
  have 5: "(case currentReader s of
           None \<Rightarrow> streams ?s1 = streams s
         | Some r \<Rightarrow>
             (case streams s r of
                None \<Rightarrow> streams ?s1 = streams s
              | Some src \<Rightarrow>
                  map_option sstate (streams ?s1 r) =
                    Some (if sstate src = Readable then Closed else sstate src)))"
    by (auto simp: cancelCurrent_def readerCancel_def split: option.splits stream_state.splits)
  from 1 2 3 4 5 show ?thesis by blast
qed

theorem close_idempotent_witness:
  "\<exists>s1. close (attachedTo (openSource [''a'', ''b''] None) (openSource [] None)) = Inr s1 \<and>
        close s1 = Inr s1 \<and>
        map_option cstate (controller s1) = Some Terminated \<and>
        map_option emitted (controller s1) = Some [''x''] \<and>
        map_option sstate (streams s1 0) = Some Closed"
  using close_idempotent [of "attachedTo (openSource [''a'', ''b''] None) (openSource [] None)"]
  by (simp add: attachedTo_def openSource_def)

text \<open>
  C9 as stated fails: \<open>switchSource\<close> awaits the cancellation outside any \<open>try\<close>, so when
  the cancel algorithm of the previous source throws, \<open>switchSource\<close> throws that error:
  the previous source is closed, the reader is still the old one, the new stream is
  untouched and the counter is not incremented.
\<close>

theorem switchSource_cancel_error_propagates:
  "thrownBy (switchSource 1 cancelFailing) = Some (Error ''cancel failed'') \<and>
   currentReader (stateAfter (switchSource 1 cancelFailing)) = Some 0 \<and>
   switches (stateAfter (switchSource 1 cancelFailing)) = 1 \<and>
   map_option sstate (streams (stateAfter (switchSource 1 cancelFailing)) 0) = Some Closed \<and>
   streams (stateAfter (switchSource 1 cancelFailing)) 1 = Some (openSource [''b''] None)"
  by (simp add: switchSource_def cancelCurrent_def readerCancel_def cancelFailing_def
      attachedTo_def openSource_def)

text \<open>
  C9, as the code has it. When \<open>switchSource\<close> is called while a previous source is
  attached and readable, and the new stream is another, unlocked stream, the previous
  source is cancelled first. If the cancellation completes, the new stream is then locked
  and installed as the current reader, the pump is started and the counter is
  incremented. If the cancellation throws \<open>e\<close>, \<open>switchSource\<close> throws \<open>e\<close> with the
  previous source closed and nothing else changed.
\<close>

theorem switchSource_cancels_first:
  assumes "currentReader s = Some r" and "streams s r = Some old" and "sstate old = Readable"
    and "streams s new = Some src" and "\<not> locked src" and "new \<noteq> r"
  shows "case cancelFails old of
           None \<Rightarrow>
             switchSource new s =
               Inr (s\<lparr>streams := (streams s)(r \<mapsto> old\<lparr>sstate := Closed, pending := []\<rparr>,
                                           new \<mapsto> src\<lparr>locked := True\<rparr>),
                      currentReader := Some new,
                      pumping := (controller s \<noteq> None),
                      switches := Suc (switches s)\<rparr>)
         | Some e \<Rightarrow>
             switchSource new s =
               Inl (e, s\<lparr>streams := (streams s)(r \<mapsto> old\<lparr>sstate := Closed, pending := []\<rparr>)\<rparr>)"
  using assms
  by (simp add: switchSource_def cancelCurrent_def readerCancel_def getReader_def
      split: option.splits)

theorem switchSource_cancels_first_witness:
  "switchSource 1 (attachedTo (openSource [''a''] None) (openSource [''b''] None)) =
     Inr \<lparr>streams = [0 \<mapsto> \<lparr>sstate = Closed, pending = [], locked = True, cancelFails = None\<rparr>,
                    1 \<mapsto> \<lparr>sstate = Readable, pending = [''b''], locked = True, cancelFails = None\<rparr>],
          controller = Some \<lparr>cstate = Open, emitted = [''x'']\<rparr>,
          currentReader = Some 1, pumping = True, switches = 2\<rparr>"
  using switchSource_cancels_first [of "attachedTo (openSource [''a''] None) (openSource [''b''] None)"
      0 "\<lparr>sstate = Readable, pending = [''a''], locked = True, cancelFails = None\<rparr>" 1
      "openSource [''b''] None"]
  by (simp add: attachedTo_def openSource_def)

section \<open>Sessions\<close>

lemma switches_reading: "switches (reading heap i xs out n) = n"
  by (simp add: reading_def)

lemma pumpRead_reading:
  "pumpRead (reading heap i xs out n) =
     (case xs of [] \<Rightarrow> reading heap i xs out n | x # xs' \<Rightarrow> reading heap i xs' (out @ [x]) n)"
  by (simp add: pumpRead_def reading_def readable_def enqueue_def split: list.splits)

lemma pumpStream_reading:
  "pumpStream k (reading heap i xs out n) = reading heap i (drop k xs) (out @ take k xs) n"
proof (induction k arbitrary: xs out)
  case 0
  then show ?case by simp
next
  case (Suc k)
  then show ?case by (cases xs) (simp_all add: pumpRead_reading)
qed

lemma close_reading: "close (reading heap i xs out n) = Inr (ended heap i out n)"
  by (simp add: close_def cancelCurrent_def readerCancel_def reading_def readable_def ended_def
      cancelled_def terminate_def)

lemma switchSource_reading:
  "j \<noteq> i \<Longrightarrow>
   switchSource j ((reading heap i xs out n)\<lparr>streams := (streams (reading heap i xs out n))(j \<mapsto> aiStream r)\<rparr>) =
     Inr (reading (heap(i \<mapsto> cancelled)) j (r_chunks r) out (Suc n))"
  by (simp add: switchSource_def cancelCurrent_def readerCancel_def getReader_def reading_def
      readable_def cancelled_def aiStream_def fun_upd_twist)

lemma switchSource_new:
  "switchSource 0 ((newSwitchableStream Map.empty)\<lparr>streams := (streams (newSwitchableStream Map.empty))(0 \<mapsto> aiStream r)\<rparr>) =
     Inr (reading Map.empty 0 (r_chunks r) [] 1)"
  by (simp add: switchSource_def cancelCurrent_def getReader_def reading_def
      readable_def aiStream_def newSwitchableStream_def)

lemma run_reading:
  assumes "length sg = Suc i"
  shows "run env i \<lparr>messages = ms, stream = reading heap i xs out n, calls = cs, segments = sg\<rparr> r =
     (if r_finish r \<noteq> Length then
        Completed \<lparr>messages = ms, stream = ended heap i (out @ take (pumped env i) xs) n,
                   calls = cs, segments = sg\<rparr>
      else if MAX_RESPONSE_SEGMENTS \<le> n then
        Aborted (Error ''Cannot continue message: Maximum segments reached'')
          \<lparr>messages = ms,
           stream = reading heap i (drop (pumped env i) xs) (out @ take (pumped env i) xs) n,
           calls = cs, segments = sg\<rparr>
      else
        (case sdk env (length cs) (streamTextArgs (modelList env) (ms @ continuation env (r_text r))) of
           Inl e \<Rightarrow>
             Aborted e
               \<lparr>messages = ms @ continuation env (r_text r),
                stream = reading heap i (drop (pumped env i) xs) (out @ take (pumped env i) xs) n,
                calls = cs @ [streamTextArgs (modelList env) (ms @ continuation env (r_text r))],
                segments = sg\<rparr>
         | Inr r' \<Rightarrow>
             run env (Suc i)
               \<lparr>messages = ms @ continuation env (r_text r),
                stream = reading (heap(i \<mapsto> cancelled)) (Suc i) (r_chunks r')
                           (out @ take (pumped env i) xs) (Suc n),
                calls = cs @ [streamTextArgs (modelList env) (ms @ continuation env (r_text r))],
                segments = sg @ [r']\<rparr> r'))"
proof -
  have sw: "switchSource (Suc i)
       ((reading heap i ys zs n)\<lparr>streams := (streams (reading heap i ys zs n))(Suc i \<mapsto> aiStream r')\<rparr>) =
     Inr (reading (heap(i \<mapsto> cancelled)) (Suc i) (r_chunks r') zs (Suc n))" for ys zs r'
    by (rule switchSource_reading) simp
  show ?thesis
    by (subst run.simps)
      (simp add: onFinish_def pumpStream_reading close_reading streamText_def toAIStream_def
        continuation_def assms sw switches_reading split: sum.splits)
qed

lemma chatAction_eq:
  "chatAction env msgs =
     (case sdk env 0 (streamTextArgs (modelList env) msgs) of
        Inl e \<Rightarrow>
          ServerError e
            \<lparr>messages = msgs, stream = newSwitchableStream Map.empty,
             calls = [streamTextArgs (modelList env) msgs], segments = []\<rparr>
      | Inr r \<Rightarrow>
          run env 0
            \<lparr>messages = msgs, stream = reading Map.empty 0 (r_chunks r) [] 1,
             calls = [streamTextArgs (modelList env) msgs], segments = [r]\<rparr> r)"
  by (simp add: chatAction_def streamText_def toAIStream_def switchSource_new split: sum.splits)

lemma delivered_reading [simp]:
  "delivered \<lparr>messages = ms, stream = reading heap i xs out n, calls = cs, segments = sg\<rparr> = out"
  by (simp add: delivered_def reading_def)

lemma delivered_ended [simp]:
  "delivered \<lparr>messages = ms, stream = ended heap i out n, calls = cs, segments = sg\<rparr> = out"
  by (simp add: delivered_def ended_def)

lemma forwarded_drained:
  "\<forall>j < length rs. length (r_chunks (rs ! j)) \<le> p (i + j) \<Longrightarrow>
   forwarded p i rs = concat (map r_chunks rs)"
proof (induction rs arbitrary: i)
  case Nil
  then show ?case by simp
next
  case (Cons r rs)
  from Cons.prems have "length (r_chunks r) \<le> p i" by force
  moreover have "\<forall>j < length rs. length (r_chunks (rs ! j)) \<le> p (Suc i + j)"
    using Cons.prems by force
  ultimately show ?case using Cons.IH [of "Suc i"] by simp
qed

lemma run_delivered:
  assumes "length sg = i"
  shows "delivered (final (run env i
            \<lparr>messages = ms, stream = reading heap i (r_chunks r) out n, calls = cs,
             segments = sg @ [r]\<rparr> r)) =
           out @ forwarded (pumped env) i
                   (drop i (segments (final (run env i
                      \<lparr>messages = ms, stream = reading heap i (r_chunks r) out n, calls = cs,
                       segments = sg @ [r]\<rparr> r)))) \<and>
         take (Suc i) (segments (final (run env i
            \<lparr>messages = ms, stream = reading heap i (r_chunks r) out n, calls = cs,
             segments = sg @ [r]\<rparr> r))) = sg @ [r]"
  using assms
proof (induction "MAX_RESPONSE_SEGMENTS - n" arbitrary: n i sg ms heap r out cs rule: less_induct)
  case less
  have len: "length (sg @ [r]) = Suc i" using less.prems by simp
  note step = run_reading [OF len, of env ms heap "r_chunks r" out n cs r]
  show ?case
  proof (cases "r_finish r \<noteq> Length \<or> MAX_RESPONSE_SEGMENTS \<le> n")
    case True
    then show ?thesis unfolding step using less.prems by auto
  next
    case False
    then have fin: "r_finish r = Length" and n: "n < MAX_RESPONSE_SEGMENTS" by auto
    show ?thesis
    proof (cases "sdk env (length cs) (streamTextArgs (modelList env) (ms @ continuation env (r_text r)))")
      case (Inl e)
      then show ?thesis unfolding step using fin n less.prems by simp
    next
      case (Inr r')
      let ?ss = "\<lparr>messages = ms @ continuation env (r_text r),
                stream = reading (heap(i \<mapsto> cancelled)) (Suc i) (r_chunks r')
                           (out @ take (pumped env i) (r_chunks r)) (Suc n),
                calls = cs @ [streamTextArgs (modelList env) (ms @ continuation env (r_text r))],
                segments = (sg @ [r]) @ [r']\<rparr>"
      let ?fin = "final (run env (Suc i) ?ss r')"
      have run: "run env i \<lparr>messages = ms, stream = reading heap i (r_chunks r) out n, calls = cs,
             segments = sg @ [r]\<rparr> r = run env (Suc i) ?ss r'"
        unfolding step using fin n Inr by simp
      have "MAX_RESPONSE_SEGMENTS - Suc n < MAX_RESPONSE_SEGMENTS - n" using n by simp
      from less.hyps [OF this len, of "ms @ continuation env (r_text r)" "heap(i \<mapsto> cancelled)" r'
          "out @ take (pumped env i) (r_chunks r)"
          "cs @ [streamTextArgs (modelList env) (ms @ continuation env (r_text r))]"]
      have out: "delivered ?fin = (out @ take (pumped env i) (r_chunks r)) @
                   forwarded (pumped env) (Suc i) (drop (Suc i) (segments ?fin))"
        and tk: "take (Suc (Suc i)) (segments ?fin) = (sg @ [r]) @ [r']"
        by simp_all
      from tk have "take (Suc i) (take (Suc (Suc i)) (segments ?fin)) = sg @ [r]"
        using less.prems by simp
      then have tk1: "take (Suc i) (segments ?fin) = sg @ [r]" by (simp add: min_def)
      have "length (take (Suc i) (segments ?fin)) = Suc i"
        using less.prems by (simp only: tk1) simp
      then have li: "i < length (segments ?fin)"
        by (simp add: min_def split: if_splits)
      have "take (Suc i) (segments ?fin) ! i = r"
        using less.prems by (simp only: tk1) (auto simp: nth_append)
      then have nth: "segments ?fin ! i = r" by simp
      have "drop i (segments ?fin) = r # drop (Suc i) (segments ?fin)"
        using Cons_nth_drop_Suc [OF li] nth by simp
      then show ?thesis using out tk1 by (simp add: run)
    qed
  qed
qed

lemma chatAction_delivered:
  "delivered (final (chatAction env msgs)) =
     forwarded (pumped env) 0 (segments (final (chatAction env msgs)))"
proof (cases "sdk env 0 (streamTextArgs (modelList env) msgs)")
  case (Inl e)
  then show ?thesis by (simp add: chatAction_eq delivered_def newSwitchableStream_def)
next
  case (Inr r)
  then show ?thesis
    using run_delivered [of "[]" 0 env msgs Map.empty r "[]" 1 "[streamTextArgs (modelList env) msgs]"]
    by (simp add: chatAction_eq)
qed

lemma two_segments:
  assumes "sdk env 0 (streamTextArgs (modelList env) msgs) = Inr r0" and "r_finish r0 = Length"
    and "sdk env 1 (streamTextArgs (modelList env) (msgs @ continuation env (r_text r0))) = Inr r1"
    and "r_finish r1 = Length"
  shows "chatAction env msgs =
     Aborted capError
       \<lparr>messages = msgs @ continuation env (r_text r0),
        stream = reading (Map.empty(0 \<mapsto> cancelled)) 1 (drop (pumped env 1) (r_chunks r1))
                   (take (pumped env 0) (r_chunks r0) @ take (pumped env 1) (r_chunks r1)) 2,
        calls = [streamTextArgs (modelList env) msgs,
                 streamTextArgs (modelList env) (msgs @ continuation env (r_text r0))],
        segments = [r0, r1]\<rparr>"
  using assms
  by (simp add: chatAction_eq run_reading MAX_RESPONSE_SEGMENTS_def capError_def numeral_2_eq_2)

text \<open>
  C2. When every call of the provider succeeds and ends with finish reason \<open>length\<close>
  (whatever its text), the request makes exactly \<open>MAX_RESPONSE_SEGMENTS\<close> calls, obtains
  exactly that many segments, and ends with \<open>onFinish\<close> throwing
  \<open>Cannot continue message: Maximum segments reached\<close>.
\<close>

theorem cap_reached:
  assumes "\<forall>i c. \<exists>r. sdk env i c = Inr r \<and> r_finish r = Length"
  shows "\<exists>ss. chatAction env msgs = Aborted capError ss \<and>
              length (segments ss) = MAX_RESPONSE_SEGMENTS \<and>
              length (calls ss) = MAX_RESPONSE_SEGMENTS"
proof -
  from assms obtain r0 where r0: "sdk env 0 (streamTextArgs (modelList env) msgs) = Inr r0"
    "r_finish r0 = Length" by blast
  from assms obtain r1 where r1:
    "sdk env 1 (streamTextArgs (modelList env) (msgs @ continuation env (r_text r0))) = Inr r1"
    "r_finish r1 = Length" by blast
  show ?thesis
    by (simp add: two_segments [OF r0 r1] MAX_RESPONSE_SEGMENTS_def)
qed

theorem cap_reached_witness:
  "thrown (chatAction (simulated (sdkAlways (segment [''a'', ''b''] Length)) 2) hello) = Some capError \<and>
   length (segments (final (chatAction (simulated (sdkAlways (segment [''a'', ''b''] Length)) 2) hello))) = 2 \<and>
   length (calls (final (chatAction (simulated (sdkAlways (segment [''a'', ''b''] Length)) 2) hello))) = 2"
  using cap_reached [of "simulated (sdkAlways (segment [''a'', ''b''] Length)) 2" hello]
  by (auto simp: simulated_def sdkAlways_def segment_def MAX_RESPONSE_SEGMENTS_def)

text \<open>
  What the guard of \<open>onFinish\<close> does: the counter \<open>switches\<close> also counts the installation
  of the first stream, so it is the number of segments so far, and the second \<open>length\<close>
  completion already meets \<open>switches >= MAX_RESPONSE_SEGMENTS\<close>. Whatever the provider
  would answer to a third call, none is made.
\<close>

lemma second_length_completion_fails:
  assumes "\<forall>c. \<exists>r. sdk env 0 c = Inr r \<and> r_finish r = Length"
    and "\<forall>c. \<exists>r. sdk env 1 c = Inr r \<and> r_finish r = Length"
  shows "MAX_RESPONSE_SEGMENTS = 2 \<and>
         (\<exists>ss. chatAction env msgs = Aborted capError ss \<and>
               length (calls ss) = 2 \<and> length (segments ss) = 2)"
proof -
  from assms(1) obtain r0 where r0: "sdk env 0 (streamTextArgs (modelList env) msgs) = Inr r0"
    "r_finish r0 = Length" by blast
  from assms(2) obtain r1 where r1:
    "sdk env 1 (streamTextArgs (modelList env) (msgs @ continuation env (r_text r0))) = Inr r1"
    "r_finish r1 = Length" by blast
  show ?thesis
    by (simp add: two_segments [OF r0 r1] MAX_RESPONSE_SEGMENTS_def)
qed

text \<open>
  C4 does not hold of the code. The comment on \<open>MAX_RESPONSE_SEGMENTS\<close> gives it as the
  maximum number of times a truncated response is continued, so with the value 2 a run of
  three consecutive \<open>length\<close> completions should take three calls and fail at the third
  completion, as C4 says. Since \<open>switchSource\<close> increments the counter for the first
  stream too, the guard trips one completion early: with a provider ready to give three
  \<open>length\<close> completions the request fails after two calls, at segment index 1; there is
  no segment index 2 and no third call.
\<close>

theorem third_call_never_made:
  "thrown (chatAction threeLengths hello) = Some capError \<and>
   length (calls (final (chatAction threeLengths hello))) = 2 \<and>
   segments (final (chatAction threeLengths hello)) = [segment [''a''] Length, segment [''b''] Length] \<and>
   length (calls (final (chatAction threeLengths hello))) \<noteq> 3"
  by (simp add: threeLengths_def simulated_def sdkScript_def segment_def chatAction_eq run_reading
      MAX_RESPONSE_SEGMENTS_def capError_def)

lemma delivered_pumpRead:
  "prefix (delivered ss) (delivered (ss\<lparr>stream := pumpRead (stream ss)\<rparr>))"
  by (auto simp: delivered_def pumpRead_def enqueue_def controllerError_def
      split: option.splits stream_state.splits list.splits)

lemma delivered_pumpStream:
  "prefix (delivered ss) (delivered (ss\<lparr>stream := pumpStream k (stream ss)\<rparr>))"
proof (induction k arbitrary: ss)
  case 0
  then show ?case by simp
next
  case (Suc k)
  have "prefix (delivered (ss\<lparr>stream := pumpRead (stream ss)\<rparr>))
          (delivered (ss\<lparr>stream := pumpStream k (pumpRead (stream ss))\<rparr>))"
    using Suc.IH [of "ss\<lparr>stream := pumpRead (stream ss)\<rparr>"] by simp
  with delivered_pumpRead [of ss] show ?case
    by (auto intro: prefix_order.trans)
qed

lemma close_effect:
  "\<exists>st. close s = Inr st \<and>
        map_option emitted (controller st) = map_option emitted (controller s) \<and>
        map_option cstate (controller st) =
          map_option (\<lambda>c. if cstate c = Open then Terminated else cstate c) (controller s)"
  by (cases "cancelCurrent s")
    (auto simp: close_def cancelCurrent_def terminate_def option.map_comp comp_def
      split: option.splits prod.splits intro!: option.map_cong)

text \<open>
  C7, as the code has it. When a segment completes with a finish reason other than
  \<open>length\<close>, \<open>error\<close> included, \<open>onFinish\<close> closes the stream and returns: the request is
  completed, no message is pushed and no further call is made, the chunks delivered
  before are still there, and the output channel ends normally if it was open when the
  callback ran (it keeps its state otherwise).
\<close>

theorem other_reason_closes:
  assumes "r_finish result \<noteq> Length"
  shows "\<exists>st. close (pumpStream (pumped env i) (stream ss)) = Inr st \<and>
           run env i ss result = Completed (ss\<lparr>stream := st\<rparr>) \<and>
           prefix (delivered ss) (delivered (ss\<lparr>stream := st\<rparr>)) \<and>
           map_option cstate (controller st) =
             map_option (\<lambda>c. if cstate c = Open then Terminated else cstate c)
               (controller (pumpStream (pumped env i) (stream ss)))"
proof -
  let ?p = "pumpStream (pumped env i) (stream ss)"
  from close_effect [of ?p] obtain st where st: "close ?p = Inr st"
    and em: "map_option emitted (controller st) = map_option emitted (controller ?p)"
    and cs: "map_option cstate (controller st) =
          map_option (\<lambda>c. if cstate c = Open then Terminated else cstate c) (controller ?p)"
    by blast
  have run: "run env i ss result = Completed (ss\<lparr>stream := st\<rparr>)"
    using assms st by (subst run.simps) (simp add: onFinish_def)
  have "delivered (ss\<lparr>stream := st\<rparr>) = delivered (ss\<lparr>stream := ?p\<rparr>)"
    using em by (auto simp: delivered_def split: option.splits)
  with delivered_pumpStream [of ss "pumped env i"]
  have "prefix (delivered ss) (delivered (ss\<lparr>stream := st\<rparr>))" by simp
  with st run cs show ?thesis by blast
qed

theorem other_reason_closes_witness:
  "run errorAtFirst 0 (firstAttached (segment [''a'', ''b''] ErrorReason)) (segment [''a'', ''b''] ErrorReason) =
     Completed ((firstAttached (segment [''a'', ''b''] ErrorReason))\<lparr>stream := ended Map.empty 0 [''a'', ''b''] 1\<rparr>)"
  using other_reason_closes [of "segment [''a'', ''b''] ErrorReason" errorAtFirst 0
      "firstAttached (segment [''a'', ''b''] ErrorReason)"]
  by (auto simp: segment_def firstAttached_def errorAtFirst_def simulated_def always_def
      pumpStream_reading close_reading)

text \<open>
  C7 as stated fails: a first segment that completes with finish reason \<open>error\<close> ends
  the request without any error, and the output channel is terminated normally after the
  chunks of that segment.
\<close>

theorem error_reason_ends_normally:
  "thrown (chatAction errorAtFirst hello) = None \<and>
   map_option cstate (controller (stream (final (chatAction errorAtFirst hello)))) = Some Terminated \<and>
   delivered (final (chatAction errorAtFirst hello)) = [''a'', ''b'']"
  by (simp add: errorAtFirst_def simulated_def sdkScript_def segment_def always_def
      chatAction_eq run_reading ended_def delivered_def)

text \<open>
  Every continuation call is resolved from messages that end with the continuation
  prompt: when that prompt carries no directive, the call goes to the default model.
\<close>

lemma continuation_call_default:
  assumes "modelRegex (continuePrompt env) = None"
  shows "c_model (streamTextArgs (MODEL_LIST discovered) (ms @ continuation env t)) = DEFAULT_MODEL"
    and "DEFAULT_MODEL \<notin> name ` set discovered \<Longrightarrow>
         c_provider (streamTextArgs (MODEL_LIST discovered) (ms @ continuation env t)) = DEFAULT_PROVIDER"
proof -
  have u: "role \<lparr>role = User, content = Text (continuePrompt env)\<rparr> = User"
    "\<not> carriesDirective \<lparr>role = User, content = Text (continuePrompt env)\<rparr>"
    "\<forall>m' \<in> set []. role m' \<noteq> User"
    using assms by (simp_all add: carriesDirective_def)
  note p = plain_turn [OF u default_known, of discovered "ms @ [\<lparr>role = Assistant, content = Text t\<rparr>]"]
  show "c_model (streamTextArgs (MODEL_LIST discovered) (ms @ continuation env t)) = DEFAULT_MODEL"
    using p(1) by (simp add: continuation_def)
  show "c_provider (streamTextArgs (MODEL_LIST discovered) (ms @ continuation env t)) = DEFAULT_PROVIDER"
    if "DEFAULT_MODEL \<notin> name ` set discovered"
    using p(2) that by (simp add: continuation_def providerOf_default)
qed

text \<open>
  C1 does not hold of the code. The continuation call resolves the model again from the
  extended messages, whose latest user turn is now the continuation prompt. That prompt
  carrying no directive, the call goes to the default pair: a request whose first segment
  was routed to \<open>gpt-4o\<close> of OpenAI is continued with the default model of Anthropic.
\<close>

theorem continuation_resets_model:
  assumes "modelRegex cp = None"
  shows "routes (chatAction ((lengthThenStop k)\<lparr>continuePrompt := cp\<rparr>) hello) =
         [(''OpenAI'', ''gpt-4o''), (DEFAULT_PROVIDER, DEFAULT_MODEL)]"
proof -
  let ?env = "(lengthThenStop k)\<lparr>continuePrompt := cp\<rparr>"
  have cp: "modelRegex (continuePrompt ?env) = None"
    using assms by simp
  have second: "c_model (streamTextArgs (MODEL_LIST []) (hello @ continuation ?env ''ab'')) = DEFAULT_MODEL"
    "c_provider (streamTextArgs (MODEL_LIST []) (hello @ continuation ?env ''ab'')) = DEFAULT_PROVIDER"
    using continuation_call_default [OF cp, of "[]" hello "''ab''"] by simp_all
  have first: "c_model (streamTextArgs (MODEL_LIST []) hello) = ''gpt-4o''"
    "c_provider (streamTextArgs (MODEL_LIST []) hello) = ''OpenAI''"
    by (simp_all add: hello_def eval_defs)
  have "calls (final (chatAction ?env hello)) =
        [streamTextArgs (MODEL_LIST []) hello, streamTextArgs (MODEL_LIST []) (hello @ continuation ?env ''ab'')]"
    by (simp add: chatAction_eq run_reading sdkScript_def segment_def MAX_RESPONSE_SEGMENTS_def
        lengthThenStop_def simulated_def)
  then show ?thesis by (simp add: routes_def first second)
qed

theorem continuation_resets_model_witness:
  "routes (chatAction (lengthThenStop 2) hello) =
     [(''OpenAI'', ''gpt-4o''), (''Anthropic'', ''claude-3-5-sonnet-20240620'')]"
proof -
  have "modelRegex ''Continue your prior response.'' = None"
    by (simp add: modelRegex_def)
  from continuation_resets_model [OF this, of 2]
  show ?thesis
    by (simp add: lengthThenStop_def simulated_def DEFAULT_MODEL_def DEFAULT_PROVIDER_def)
qed

text \<open>
  C3, as the code has it. The chunks the caller receives are, segment after segment in
  the order of the segments, the chunks of each segment that the pump had read when the
  stream of that segment was cancelled (by the switch to the next segment or by
  \<open>close\<close>), in the order the segment produced them: nothing is duplicated or reordered,
  and what a cancelled stream had not delivered yet is dropped. When the pump had read
  every segment to its end, the output is the concatenation of the chunks of all
  segments.
\<close>

theorem delivered_is_forwarded:
  "delivered (final (chatAction env msgs)) =
     forwarded (pumped env) 0 (segments (final (chatAction env msgs))) \<and>
   ((\<forall>j < length (segments (final (chatAction env msgs))).
       length (r_chunks (segments (final (chatAction env msgs)) ! j)) \<le> pumped env j) \<longrightarrow>
    delivered (final (chatAction env msgs)) =
      concat (map r_chunks (segments (final (chatAction env msgs)))))"
  using forwarded_drained [of "segments (final (chatAction env msgs))" "pumped env" 0]
  by (simp add: chatAction_delivered)

lemma lengthThenStop_segments:
  "segments (final (chatAction (lengthThenStop k) hello)) = [segment [''a'', ''b''] Length, segment [''c''] Stop]"
  by (simp add: lengthThenStop_def simulated_def sdkScript_def segment_def
      chatAction_eq run_reading MAX_RESPONSE_SEGMENTS_def)

lemma pumped_lengthThenStop: "pumped (lengthThenStop k) i = k"
  by (simp add: lengthThenStop_def simulated_def always_def)

theorem delivered_is_forwarded_witness:
  "delivered (final (chatAction (lengthThenStop 2) hello)) = [''a'', ''b'', ''c'']"
  using delivered_is_forwarded [of "lengthThenStop 2" hello]
  by (simp add: lengthThenStop_segments pumped_lengthThenStop segment_def All_less_Suc numeral_2_eq_2)

text \<open>
  C3 as stated fails: when the first segment is superseded after the pump has read one of
  its two chunks, the second chunk never reaches the caller.
\<close>

theorem unread_chunks_dropped:
  "delivered (final (chatAction (lengthThenStop 1) hello)) = [''a'', ''c''] \<and>
   concat (map r_chunks (segments (final (chatAction (lengthThenStop 1) hello)))) = [''a'', ''b'', ''c'']"
  by (simp add: lengthThenStop_def simulated_def sdkScript_def segment_def always_def
      chatAction_eq run_reading MAX_RESPONSE_SEGMENTS_def delivered_def ended_def)

end
